theory Spec2Isabelle
  imports Main "HOL-Library.AList"
begin

section \<open>Python values the struct block works with\<close>

subsection \<open>Ordered dictionaries\<close>

text \<open>
  \<^verbatim>\<open>collections.OrderedDict\<close> (and the plain \<^verbatim>\<open>dict\<close> of Python 3.7 and later) is an
  association list in insertion order whose keys are pairwise distinct. Assigning to a
  key that is present replaces the value where it stands; assigning to a new key appends.
\<close>

type_synonym ('k, 'a) odict = "('k \<times> 'a) list"

definition odict_setitem :: "('k, 'a) odict \<Rightarrow> 'k \<Rightarrow> 'a \<Rightarrow> ('k, 'a) odict" where
  "odict_setitem d k v = AList.update k v d"

definition odict_get :: "('k, 'a) odict \<Rightarrow> 'k \<Rightarrow> 'a \<Rightarrow> 'a" where
  \<comment> \<open>\<^verbatim>\<open>d.get(k, dflt)\<close>\<close>
  "odict_get d k dflt = (case map_of d k of None \<Rightarrow> dflt | Some v \<Rightarrow> v)"

definition odict_of_pairs :: "('k \<times> 'a) list \<Rightarrow> ('k, 'a) odict" where
  \<comment> \<open>\<^verbatim>\<open>OrderedDict(pairs)\<close> and \<^verbatim>\<open>dict(pairs)\<close>: the pairs are stored one after the other\<close>
  "odict_of_pairs ps = foldl (\<lambda>d (k, v). odict_setitem d k v) [] ps"

subsection \<open>Validation errors and exceptions\<close>

text \<open>
  A \<^verbatim>\<open>ValidationError\<close> carries a message and the optional \<^verbatim>\<open>params\<close>; the struct block
  stores there a dictionary from field names to error lists. An \<^verbatim>\<open>ErrorList\<close> is a list
  of validation errors, and \<^verbatim>\<open>as_data()\<close> gives that list back.
\<close>

datatype validation_error =
  ValidationError (message: string) (params: "(string \<times> validation_error list) list option")

type_synonym error_list = "validation_error list"

datatype exn =
    KeyError string
  | TypeError string
  | AttributeError string
  | Raised validation_error

definition odict_getitem :: "(string, 'a) odict \<Rightarrow> string \<Rightarrow> exn + 'a" where
  \<comment> \<open>\<^verbatim>\<open>d[k]\<close>, which raises \<^verbatim>\<open>KeyError\<close> on a missing key\<close>
  "odict_getitem d k = (case map_of d k of None \<Rightarrow> Inl (KeyError k) | Some v \<Rightarrow> Inr v)"

subsection \<open>Markup\<close>

text \<open>
  Django's \<^verbatim>\<open>format_html\<close> passes every argument through \<^verbatim>\<open>conditional_escape\<close>: a string
  marked safe is taken as it is, any other string is escaped. The escaping function
  itself (\<^verbatim>\<open>django.utils.html.escape\<close>) is a parameter \<open>esc\<close> of the model.
\<close>

datatype markup = SafeText string | PlainText string

fun markup_text :: "markup \<Rightarrow> string" where
  \<comment> \<open>the characters of the string, safe or not; the string is falsy when there are none\<close>
  "markup_text (SafeText s) = s"
| "markup_text (PlainText s) = s"

fun conditional_escape :: "(string \<Rightarrow> string) \<Rightarrow> markup \<Rightarrow> string" where
  "conditional_escape esc (SafeText s) = s"
| "conditional_escape esc (PlainText s) = esc s"

fun str_join :: "string \<Rightarrow> string list \<Rightarrow> string" where
  "str_join sep [] = []"
| "str_join sep [x] = x"
| "str_join sep (x # y # ys) = x @ sep @ str_join sep (y # ys)"

definition format_html_join_li :: "(string \<Rightarrow> string) \<Rightarrow> markup list \<Rightarrow> string" where
  \<comment> \<open>\<^verbatim>\<open>format_html_join('\n', "<li>{0}</li>", [[r] for r in rs])\<close>\<close>
  "format_html_join_li esc rs =
     str_join (esc [CHR 0x0A]) (map (\<lambda>r. ''<li>'' @ conditional_escape esc r @ ''</li>'') rs)"

section \<open>Field definitions (child blocks)\<close>

text \<open>
  The operations every child block offers. They live outside \<^verbatim>\<open>struct_block.py\<close>; a child
  is a record of them, over the type \<open>'v\<close> of Python values, the request data \<open>'d\<close> and
  the uploaded files \<open>'f\<close>. A child may be a struct block itself, and its \<^verbatim>\<open>clean\<close> and
  \<^verbatim>\<open>render_form\<close> may raise: \<^verbatim>\<open>clean\<close> a \<^verbatim>\<open>ValidationError\<close> (\<open>Raised\<close>), which the struct
  block catches, or any other exception, which it does not; \<^verbatim>\<open>render_form\<close> any exception.
  The other operations of a child are taken to return.
\<close>

record ('v, 'd, 'f) block =
  block_name :: string
  meta_default :: 'v
  block_render_form :: "'v \<Rightarrow> string \<Rightarrow> error_list option \<Rightarrow> exn + markup"
  block_value_from_datadict :: "'d \<Rightarrow> 'f \<Rightarrow> string \<Rightarrow> 'v"
  block_clean :: "'v \<Rightarrow> exn + 'v"
  block_to_python :: "'v \<Rightarrow> 'v"
  block_get_prep_value :: "'v \<Rightarrow> 'v"
  block_get_searchable_content :: "'v \<Rightarrow> string list"
  block_js_initializer :: "string option"

text \<open>
  Modelled from the spec: \<^verbatim>\<open>Block.bind\<close> and \<^verbatim>\<open>BoundBlock\<close> are defined in
  \<^verbatim>\<open>blocks/base.py\<close>, which is not part of the source at hand. The spec describes a bound
  field as the pairing of a field definition with a value.
\<close>

record ('v, 'd, 'f) bound_block =
  bb_block :: "('v, 'd, 'f) block"
  bb_value :: 'v

definition bind :: "('v, 'd, 'f) block \<Rightarrow> 'v \<Rightarrow> ('v, 'd, 'f) bound_block" where
  "bind b v = \<lparr>bb_block = b, bb_value = v\<rparr>"

section \<open>The struct block\<close>

record ('v, 'd, 'f, 'k) struct_block =
  constructor_kwargs :: 'k
  label :: markup
  child_blocks :: "(string, ('v, 'd, 'f) block) odict"
  child_js_initializers :: "(string, string) odict"
  dependencies :: "('v, 'd, 'f) block list"

record ('v, 'd, 'f, 'k) struct_value =
  sv_block :: "('v, 'd, 'f, 'k) struct_block"
  sv_items :: "(string, 'v) odict"
  sv_bound_blocks :: "(string, ('v, 'd, 'f) bound_block) odict option"

definition StructValue ::
  "('v, 'd, 'f, 'k) struct_block \<Rightarrow> (string \<times> 'v) list \<Rightarrow> ('v, 'd, 'f, 'k) struct_value" where
  \<comment> \<open>\<^verbatim>\<open>StructValue.__init__\<close>: an ordered dictionary of the pairs, with the block;
      the cached property \<^verbatim>\<open>bound_blocks\<close> is not yet in the instance\<close>
  "StructValue blk ps = \<lparr>sv_block = blk, sv_items = odict_of_pairs ps, sv_bound_blocks = None\<rparr>"

subsection \<open>Construction\<close>

text \<open>
  \<^verbatim>\<open>__init__\<close> makes a shallow copy of the class's \<^verbatim>\<open>base_blocks\<close>, calls \<^verbatim>\<open>set_name\<close> on
  each local block and assigns that same block into the copy. What the base set shows
  afterwards depends on which objects are shared, so construction works on a store with
  two kinds of objects, each addressed by its position: the field definitions
  (\<open>objects\<close>) and the ordered dictionaries from names to references of field
  definitions (\<open>odicts\<close>). \<^verbatim>\<open>copy()\<close> allocates a dictionary with the same references,
  item assignment writes one dictionary, and \<^verbatim>\<open>block.set_name(name)\<close> writes the one
  object the reference stands for, whoever else holds it. A reference is a position
  below the length of its part of the store (Python has no dangling reference), which
  the theorems on construction assume of \<^verbatim>\<open>base_blocks\<close>. \<^verbatim>\<open>local_blocks\<close> pairs names with
  references. What \<^verbatim>\<open>Block.set_name\<close> does to a field definition and how
  \<^verbatim>\<open>Block.__init__\<close> derives the label from the keyword arguments belongs to
  \<^verbatim>\<open>blocks/base.py\<close>: they are the parameters \<open>set_name\<close> and \<open>label_of\<close>.

  The operations of the later sections read a descriptor whose \<open>child_blocks\<close> pair the
  names with the field definitions themselves: \<open>store_items\<close> of the descriptor's
  dictionary, the children as the store shows them when \<^verbatim>\<open>__init__\<close> returns.
\<close>

record ('v, 'd, 'f) store =
  objects :: "('v, 'd, 'f) block list"
  odicts :: "(string, nat) odict list"

definition store_copy :: "('v, 'd, 'f) store \<Rightarrow> nat \<Rightarrow> ('v, 'd, 'f) store \<times> nat" where
  "store_copy s d = (s\<lparr>odicts := odicts s @ [odicts s ! d]\<rparr>, length (odicts s))"

definition store_set_name ::
  "(string \<Rightarrow> ('v, 'd, 'f) block \<Rightarrow> ('v, 'd, 'f) block) \<Rightarrow>
   ('v, 'd, 'f) store \<Rightarrow> nat \<Rightarrow> string \<Rightarrow> ('v, 'd, 'f) store" where
  "store_set_name set_name s r name =
     s\<lparr>objects := (objects s)[r := set_name name (objects s ! r)]\<rparr>"

definition store_setitem ::
  "('v, 'd, 'f) store \<Rightarrow> nat \<Rightarrow> string \<Rightarrow> nat \<Rightarrow> ('v, 'd, 'f) store" where
  "store_setitem s d k r = s\<lparr>odicts := (odicts s)[d := odict_setitem (odicts s ! d) k r]\<rparr>"

definition store_items ::
  "('v, 'd, 'f) store \<Rightarrow> nat \<Rightarrow> (string \<times> ('v, 'd, 'f) block) list" where
  "store_items s d = map (\<lambda>(name, r). (name, objects s ! r)) (odicts s ! d)"

fun supplement ::
  "(string \<Rightarrow> ('v, 'd, 'f) block \<Rightarrow> ('v, 'd, 'f) block) \<Rightarrow>
   ('v, 'd, 'f) store \<Rightarrow> nat \<Rightarrow> (string \<times> nat) list \<Rightarrow> ('v, 'd, 'f) store" where
  "supplement set_name s d [] = s"
| "supplement set_name s d ((name, r) # rest) =
     supplement set_name (store_setitem (store_set_name set_name s r name) d name r) d rest"

fun collect_js_initializers ::
  "(string, string) odict \<Rightarrow> (string \<times> ('v, 'd, 'f) block) list \<Rightarrow> (string, string) odict" where
  "collect_js_initializers acc [] = acc"
| "collect_js_initializers acc ((name, blk) # rest) =
     (case block_js_initializer blk of
        None \<Rightarrow> collect_js_initializers acc rest
      | Some js \<Rightarrow> collect_js_initializers (odict_setitem acc name js) rest)"

definition init ::
  "(string \<Rightarrow> ('v, 'd, 'f) block \<Rightarrow> ('v, 'd, 'f) block) \<Rightarrow> ('k \<Rightarrow> markup) \<Rightarrow>
   ('v, 'd, 'f) store \<Rightarrow> nat \<Rightarrow> (string \<times> nat) list option \<Rightarrow> 'k \<Rightarrow>
   ('v, 'd, 'f) store \<times> ('v, 'd, 'f, 'k) struct_block" where
  "init set_name label_of s base_blocks local_blocks kwargs =
     (let (s1, d) = store_copy s base_blocks;
          s2 = (case local_blocks of
                  None \<Rightarrow> s1
                | Some [] \<Rightarrow> s1
                | Some lbs \<Rightarrow> supplement set_name s1 d lbs);
          children = store_items s2 d
      in (s2, \<lparr>constructor_kwargs = kwargs,
               label = label_of kwargs,
               child_blocks = children,
               child_js_initializers = collect_js_initializers [] children,
               dependencies = map snd children\<rparr>))"

definition js_initializer ::
  "((string, string) odict \<Rightarrow> string) \<Rightarrow> ('v, 'd, 'f, 'k) struct_block \<Rightarrow> string option" where
  \<comment> \<open>\<open>js_dict\<close> is the helper of \<^verbatim>\<open>blocks/utils.py\<close>\<close>
  "js_initializer js_dict self =
     (if child_js_initializers self = [] then None
      else Some (''StructBlock('' @ js_dict (child_js_initializers self) @ '')''))"

subsection \<open>Rendering the form\<close>

fun error_dict_of :: "error_list option \<Rightarrow> exn + (string, error_list) odict option" where
  "error_dict_of None = Inr (Some [])"
| "error_dict_of (Some []) = Inr (Some [])"
| "error_dict_of (Some [e]) = Inr (params e)"
| "error_dict_of (Some (e # e' # es)) =
     Inl (TypeError ''StructBlock.render_form unexpectedly received multiple errors'')"

text \<open>
  The comprehension over the children, one child after the other. A \<^verbatim>\<open>params\<close> that is
  \<^verbatim>\<open>None\<close> has no \<^verbatim>\<open>get\<close>: the first child then raises \<^verbatim>\<open>AttributeError\<close>. An exception of
  a child's \<^verbatim>\<open>render_form\<close> ends the comprehension and \<^verbatim>\<open>render_form\<close>.
\<close>

fun child_renderings ::
  "(string \<times> ('v, 'd, 'f) block) list \<Rightarrow> (string, 'v) odict \<Rightarrow> string \<Rightarrow>
   (string, error_list) odict option \<Rightarrow> exn + markup list" where
  "child_renderings [] val prefix error_dict = Inr []"
| "child_renderings ((name, blk) # rest) val prefix error_dict =
     (case error_dict of
        None \<Rightarrow> Inl (AttributeError ''get'')
      | Some ed \<Rightarrow>
          (case block_render_form blk (odict_get val name (meta_default blk))
                  (prefix @ ''-'' @ name) (map_of ed name) of
             Inl x \<Rightarrow> Inl x
           | Inr r \<Rightarrow>
               (case child_renderings rest val prefix error_dict of
                  Inl x \<Rightarrow> Inl x
                | Inr rs \<Rightarrow> Inr (r # rs))))"

text \<open>
  \<^verbatim>\<open>format_html\<close> passes the label through \<^verbatim>\<open>conditional_escape\<close> as well: a label marked
  safe is written as it is.
\<close>

definition render_form ::
  "(string \<Rightarrow> string) \<Rightarrow> ('v, 'd, 'f, 'k) struct_block \<Rightarrow> (string, 'v) odict \<Rightarrow> string \<Rightarrow>
   error_list option \<Rightarrow> exn + markup" where
  "render_form esc self val prefix errors =
     (case error_dict_of errors of
        Inl x \<Rightarrow> Inl x
      | Inr error_dict \<Rightarrow>
          (case child_renderings (child_blocks self) val prefix error_dict of
             Inl x \<Rightarrow> Inl x
           | Inr rs \<Rightarrow>
               (let list_items = format_html_join_li esc rs in
                if markup_text (label self) \<noteq> [] then
                  Inr (SafeText (''<div class=\"struct-block\"><label>''
                         @ conditional_escape esc (label self)
                         @ ''</label> <ul>'' @ list_items @ ''</ul></div>''))
                else
                  Inr (SafeText (''<div class=\"struct-block\"><ul>'' @ list_items
                         @ ''</ul></div>'')))))"

subsection \<open>Parsing, validation and normalisation\<close>

definition value_from_datadict ::
  "('v, 'd, 'f, 'k) struct_block \<Rightarrow> 'd \<Rightarrow> 'f \<Rightarrow> string \<Rightarrow> ('v, 'd, 'f, 'k) struct_value" where
  "value_from_datadict self data files prefix =
     StructValue self
       (map (\<lambda>(name, blk). (name, block_value_from_datadict blk data files (prefix @ ''-'' @ name)))
          (child_blocks self))"

text \<open>
  The loop of \<^verbatim>\<open>clean\<close> runs over the entries of the value. The child is looked up with
  \<^verbatim>\<open>self.child_blocks[name]\<close> inside the \<^verbatim>\<open>try\<close>, whose handler takes \<^verbatim>\<open>ValidationError\<close>
  only: the \<^verbatim>\<open>KeyError\<close> of the lookup, and any exception of the child's \<^verbatim>\<open>clean\<close> that is
  not a \<^verbatim>\<open>ValidationError\<close>, leaves the loop and the function.
\<close>

fun clean_loop ::
  "(string, ('v, 'd, 'f) block) odict \<Rightarrow> (string \<times> 'v) list \<Rightarrow>
   (string, 'v) odict \<Rightarrow> (string, error_list) odict \<Rightarrow>
   exn + ((string, 'v) odict \<times> (string, error_list) odict)" where
  "clean_loop cbs [] result errors = Inr (result, errors)"
| "clean_loop cbs ((name, v) # rest) result errors =
     (case odict_getitem cbs name of
        Inl x \<Rightarrow> Inl x
      | Inr blk \<Rightarrow>
          (case block_clean blk v of
             Inr v' \<Rightarrow> clean_loop cbs rest (odict_setitem result name v') errors
           | Inl (Raised e) \<Rightarrow> clean_loop cbs rest result (odict_setitem errors name [e])
           | Inl x \<Rightarrow> Inl x))"

definition clean ::
  "('v, 'd, 'f, 'k) struct_block \<Rightarrow> (string, 'v) odict \<Rightarrow> exn + (string, 'v) odict" where
  "clean self val =
     (case clean_loop (child_blocks self) val [] [] of
        Inl x \<Rightarrow> Inl x
      | Inr (result, errors) \<Rightarrow>
          if errors \<noteq> [] then
            Inl (Raised (ValidationError ''Validation error in StructBlock'' (Some errors)))
          else Inr result)"

definition to_python ::
  "('v, 'd, 'f, 'k) struct_block \<Rightarrow> (string, 'v) odict \<Rightarrow> ('v, 'd, 'f, 'k) struct_value" where
  "to_python self val =
     StructValue self
       (map (\<lambda>(name, child_block).
               (name, block_to_python child_block (odict_get val name (meta_default child_block))))
          (child_blocks self))"

fun prep_pairs ::
  "(string, ('v, 'd, 'f) block) odict \<Rightarrow> (string \<times> 'v) list \<Rightarrow> exn + (string \<times> 'v) list" where
  "prep_pairs cbs [] = Inr []"
| "prep_pairs cbs ((name, v) # rest) =
     (case odict_getitem cbs name of
        Inl x \<Rightarrow> Inl x
      | Inr blk \<Rightarrow>
          (case prep_pairs cbs rest of
             Inl x \<Rightarrow> Inl x
           | Inr ps \<Rightarrow> Inr ((name, block_get_prep_value blk v) # ps)))"

definition get_prep_value ::
  "('v, 'd, 'f, 'k) struct_block \<Rightarrow> (string, 'v) odict \<Rightarrow> exn + (string, 'v) odict" where
  "get_prep_value self val =
     (case prep_pairs (child_blocks self) val of
        Inl x \<Rightarrow> Inl x
      | Inr ps \<Rightarrow> Inr (odict_of_pairs ps))"

definition get_searchable_content ::
  "('v, 'd, 'f, 'k) struct_block \<Rightarrow> (string, 'v) odict \<Rightarrow> string list" where
  "get_searchable_content self val =
     foldl (\<lambda>content (name, blk).
              content @ block_get_searchable_content blk (odict_get val name (meta_default blk)))
       [] (child_blocks self)"

definition deconstruct ::
  "('v, 'd, 'f, 'k) struct_block \<Rightarrow>
   string \<times> (string \<times> ('v, 'd, 'f) block) list list \<times> 'k" where
  "deconstruct self =
     (''wagtail.wagtailcore.blocks.StructBlock'', [child_blocks self], constructor_kwargs self)"

subsection \<open>The struct value's bound blocks\<close>

text \<open>
  \<^verbatim>\<open>bound_blocks\<close> is a \<^verbatim>\<open>cached_property\<close>: the first access computes the dictionary and
  stores it in the instance, every later access reads what is stored. \<^verbatim>\<open>self.get(name)\<close>
  has no default of its own, so it gives Python's \<^verbatim>\<open>None\<close> (the parameter \<open>py_None\<close>) for
  a name the instance does not hold.
\<close>

definition compute_bound_blocks ::
  "'v \<Rightarrow> ('v, 'd, 'f, 'k) struct_value \<Rightarrow> (string, ('v, 'd, 'f) bound_block) odict" where
  "compute_bound_blocks py_None sv =
     odict_of_pairs
       (map (\<lambda>(name, blk). (name, bind blk (odict_get (sv_items sv) name py_None)))
          (child_blocks (sv_block sv)))"

definition bound_blocks ::
  "'v \<Rightarrow> ('v, 'd, 'f, 'k) struct_value \<Rightarrow>
   (string, ('v, 'd, 'f) bound_block) odict \<times> ('v, 'd, 'f, 'k) struct_value" where
  "bound_blocks py_None sv =
     (case sv_bound_blocks sv of
        Some bbs \<Rightarrow> (bbs, sv)
      | None \<Rightarrow>
          (let bbs = compute_bound_blocks py_None sv
           in (bbs, sv\<lparr>sv_bound_blocks := Some bbs\<rparr>)))"

section \<open>Sample field definitions\<close>

text \<open>
  A character field over the values \<open>None\<close> and \<open>Some s\<close> (a string): it is required,
  normalises \<open>None\<close> to the empty string, reads its raw value from the request data
  under its prefix, and writes the messages of its errors after its input. The struct
  \<open>example_struct\<close> declares a title and a body of that kind. They are used to run the
  operations on concrete inputs, with \<open>example_set_name\<close> for \<^verbatim>\<open>set_name\<close>: it records the
  name in the field definition.
\<close>

definition example_char_block ::
  "string \<Rightarrow> (string option, (string \<times> string) list, unit) block" where
  "example_char_block dflt =
     \<lparr>block_name = [],
      meta_default = Some dflt,
      block_render_form = (\<lambda>v prefix errors.
         Inr (SafeText (''<input name='' @ prefix @ ''>''
           @ (case errors of None \<Rightarrow> [] | Some es \<Rightarrow> concat (map message es))))),
      block_value_from_datadict = (\<lambda>data files prefix. map_of data prefix),
      block_clean = (\<lambda>v. case v of
           None \<Rightarrow> Inl (Raised (ValidationError ''This field is required.'' None))
         | Some s \<Rightarrow> if s = [] then Inl (Raised (ValidationError ''This field is required.'' None))
                     else Inr v),
      block_to_python = (\<lambda>v. case v of None \<Rightarrow> Some [] | Some s \<Rightarrow> Some s),
      block_get_prep_value = (\<lambda>v. v),
      block_get_searchable_content = (\<lambda>v. case v of None \<Rightarrow> [] | Some s \<Rightarrow> [s]),
      block_js_initializer = None\<rparr>"

definition example_struct ::
  "(string option, (string \<times> string) list, unit, (string \<times> string) list) struct_block" where
  "example_struct =
     \<lparr>constructor_kwargs = [],
      label = PlainText ''Article'',
      child_blocks =
        [(''title'', example_char_block ''Untitled''), (''body'', example_char_block ''Lorem'')],
      child_js_initializers = [],
      dependencies = [example_char_block ''Untitled'', example_char_block ''Lorem'']\<rparr>"

definition example_set_name ::
  "string \<Rightarrow> (string option, (string \<times> string) list, unit) block \<Rightarrow>
   (string option, (string \<times> string) list, unit) block" where
  "example_set_name name blk = blk\<lparr>block_name := name\<rparr>"

text \<open>
  A store for construction: five field definitions, of which the first two have their
  names, and the base set of a class that declares them as its title and body.
\<close>

definition example_store :: "(string option, (string \<times> string) list, unit) store" where
  "example_store =
     \<lparr>objects =
        [example_set_name ''title'' (example_char_block ''Untitled''),
         example_set_name ''body'' (example_char_block ''Lorem''),
         example_char_block ''Ipsum'',
         example_char_block ''S'',
         example_char_block ''T''],
      odicts = [[(''title'', 0), (''body'', 1)]]\<rparr>"

definition example_escape :: "string \<Rightarrow> string" where
  \<comment> \<open>a sample escaping function: the three characters that open and close markup\<close>
  "example_escape s =
     concat (map (\<lambda>c. if c = CHR ''<'' then ''&lt;''
                     else if c = CHR ''>'' then ''&gt;''
                     else if c = CHR ''&'' then ''&amp;'' else [c]) s)"

text \<open>
  A struct block can be the child of another. \<open>example_empty_struct\<close> is a struct block
  that declares no field, and \<open>example_nested_block\<close> is that struct block as a child:
  its \<^verbatim>\<open>render_form\<close> and \<^verbatim>\<open>clean\<close> are the struct block's own, over the empty mapping,
  which is the only value such a struct has (written \<open>None\<close> among the sample values).
  \<open>example_outer_struct\<close> declares a title and that child.
\<close>

definition example_empty_struct ::
  "(string option, (string \<times> string) list, unit, (string \<times> string) list) struct_block" where
  "example_empty_struct =
     \<lparr>constructor_kwargs = [],
      label = PlainText [],
      child_blocks = [],
      child_js_initializers = [],
      dependencies = []\<rparr>"

definition example_nested_block ::
  "(string option, (string \<times> string) list, unit) block" where
  "example_nested_block =
     \<lparr>block_name = [],
      meta_default = None,
      block_render_form = (\<lambda>v prefix errors.
         render_form (\<lambda>s. s) example_empty_struct [] prefix errors),
      block_value_from_datadict = (\<lambda>data files prefix. None),
      block_clean = (\<lambda>v. case clean example_empty_struct [] of
           Inl x \<Rightarrow> Inl x
         | Inr result \<Rightarrow> Inr None),
      block_to_python = (\<lambda>v. None),
      block_get_prep_value = (\<lambda>v. None),
      block_get_searchable_content = (\<lambda>v. get_searchable_content example_empty_struct []),
      block_js_initializer = None\<rparr>"

definition example_outer_struct ::
  "(string option, (string \<times> string) list, unit, (string \<times> string) list) struct_block" where
  "example_outer_struct =
     \<lparr>constructor_kwargs = [],
      label = SafeText ''<b>Page</b>'',
      child_blocks =
        [(''title'', example_char_block ''Untitled''), (''inner'', example_nested_block)],
      child_js_initializers = [],
      dependencies = [example_char_block ''Untitled'', example_nested_block]\<rparr>"

section \<open>Facts about ordered dictionaries\<close>

lemma setitem_fresh: "k \<notin> fst ` set d \<Longrightarrow> odict_setitem d k v = d @ [(k, v)]"
  unfolding odict_setitem_def by (induction d) auto

lemma setitem_keys: "fst ` set (odict_setitem d k v) = insert k (fst ` set d)"
  unfolding odict_setitem_def by (simp add: dom_update)

lemma foldl_setitem_distinct:
  "distinct (map fst (acc @ ps)) \<Longrightarrow> foldl (\<lambda>d (k, v). odict_setitem d k v) acc ps = acc @ ps"
proof (induction ps arbitrary: acc)
  case Nil
  then show ?case by simp
next
  case (Cons p ps)
  obtain k v where p: "p = (k, v)" by (cases p)
  from Cons.prems have fresh: "k \<notin> fst ` set acc" by (auto simp: p)
  from Cons.prems have "distinct (map fst ((acc @ [(k, v)]) @ ps))" by (auto simp: p)
  from Cons.IH [OF this] show ?case by (simp add: p setitem_fresh [OF fresh])
qed

lemma odict_of_pairs_distinct: "distinct (map fst ps) \<Longrightarrow> odict_of_pairs ps = ps"
  unfolding odict_of_pairs_def using foldl_setitem_distinct [of "[]" ps] by simp

lemma foldl_setitem_keys:
  "fst ` set (foldl (\<lambda>d (k, v). odict_setitem d k v) acc ps) = fst ` set acc \<union> fst ` set ps"
proof (induction ps arbitrary: acc)
  case Nil
  then show ?case by simp
next
  case (Cons p ps)
  obtain k v where p: "p = (k, v)" by (cases p)
  have "fst ` set (foldl (\<lambda>d (k, v). odict_setitem d k v) (odict_setitem acc k v) ps)
      = insert k (fst ` set acc) \<union> fst ` set ps"
    by (simp only: Cons.IH setitem_keys)
  then show ?case by (simp add: p)
qed

lemma odict_of_pairs_keys: "fst ` set (odict_of_pairs ps) = fst ` set ps"
  by (simp add: odict_of_pairs_def foldl_setitem_keys)

lemma odict_get_absent: "k \<notin> fst ` set d \<Longrightarrow> odict_get d k dflt = dflt"
  unfolding odict_get_def by (simp add: map_of_eq_None_iff [THEN iffD2])

lemma odict_get_setitem:
  "odict_get (odict_setitem d k v) k' dflt = (if k' = k then v else odict_get d k' dflt)"
  unfolding odict_get_def odict_setitem_def by (simp add: update_conv')


lemma fst_comp_named: "fst \<circ> (\<lambda>(name, blk). (name, f name blk)) = fst"
  by (auto simp: fun_eq_iff)

lemma odict_get_named:
  assumes d: "distinct (map fst cbs)" and m: "(name, b) \<in> set cbs"
  shows "odict_get (map (\<lambda>(name, b). (name, f name b)) cbs) name dflt = f name b"
proof -
  have "distinct (map fst (map (\<lambda>(name, b). (name, f name b)) cbs))"
    using d by (simp add: fst_comp_named)
  moreover have "(name, f name b) \<in> set (map (\<lambda>(name, b). (name, f name b)) cbs)"
    using m by force
  ultimately have "map_of (map (\<lambda>(name, b). (name, f name b)) cbs) name = Some (f name b)"
    by (rule map_of_is_SomeI)
  then show ?thesis by (simp add: odict_get_def)
qed

lemma StructValue_items:
  "distinct (map fst cbs) \<Longrightarrow>
   sv_items (StructValue blk (map (\<lambda>(name, b). (name, f name b)) cbs)) =
     map (\<lambda>(name, b). (name, f name b)) cbs"
  by (simp add: StructValue_def odict_of_pairs_distinct fst_comp_named)

section \<open>Properties of validation\<close>

lemma clean_loop_declared:
  assumes "distinct (map fst val)"
    and "fst ` set val \<subseteq> fst ` set cbs"
    and "\<forall>(name, v) \<in> set val. \<forall>x.
           block_clean (the (map_of cbs name)) v = Inl x \<longrightarrow> (\<exists>e. x = Raised e)"
    and "fst ` set val \<inter> (fst ` set result \<union> fst ` set errors) = {}"
  shows "clean_loop cbs val result errors =
    Inr (result @ concat (map (\<lambda>(name, v). case block_clean (the (map_of cbs name)) v of
                                 Inl x \<Rightarrow> [] | Inr v' \<Rightarrow> [(name, v')]) val),
         errors @ concat (map (\<lambda>(name, v). case block_clean (the (map_of cbs name)) v of
                                 Inl (Raised e) \<Rightarrow> [(name, [e])] | Inl x \<Rightarrow> []
                               | Inr v' \<Rightarrow> []) val))"
  using assms
proof (induction val arbitrary: result errors)
  case Nil
  then show ?case by simp
next
  case (Cons p val)
  obtain name v where p: "p = (name, v)" by (cases p)
  from Cons.prems(2) have "name \<in> fst ` set cbs" by (simp add: p)
  then have "map_of cbs name \<noteq> None" by (simp add: map_of_eq_None_iff)
  then obtain blk where blk: "map_of cbs name = Some blk" by blast
  have d: "distinct (map fst val)" and s: "fst ` set val \<subseteq> fst ` set cbs"
    and nv: "name \<notin> fst ` set val"
    using Cons.prems by (auto simp: p)
  have c: "\<forall>(name, v) \<in> set val. \<forall>x.
           block_clean (the (map_of cbs name)) v = Inl x \<longrightarrow> (\<exists>e. x = Raised e)"
    using Cons.prems(3) by simp
  have fr: "name \<notin> fst ` set result" and fe: "name \<notin> fst ` set errors"
    using Cons.prems(4) by (auto simp: p)
  show ?case
  proof (cases "block_clean blk v")
    case (Inl x)
    with Cons.prems(3) obtain e where x: "x = Raised e" by (auto simp: p blk)
    have "fst ` set val \<inter> (fst ` set result \<union> fst ` set (errors @ [(name, [e])])) = {}"
      using Cons.prems(4) nv by (auto simp: p)
    from Cons.IH [OF d s c this] show ?thesis
      by (simp add: p odict_getitem_def blk Inl x setitem_fresh [OF fe])
  next
    case (Inr v')
    have "fst ` set val \<inter> (fst ` set (result @ [(name, v')]) \<union> fst ` set errors) = {}"
      using Cons.prems(4) nv by (auto simp: p)
    from Cons.IH [OF d s c this] show ?thesis
      by (simp add: p odict_getitem_def blk Inr setitem_fresh [OF fr])
  qed
qed






text \<open>
  Claim C1, as amended. Let the value be a mapping (its keys are distinct) whose keys all
  name declared child fields, and let no child's \<^verbatim>\<open>clean\<close> raise anything but a
  \<^verbatim>\<open>ValidationError\<close> on its entry. Then \<^verbatim>\<open>clean\<close> validates every entry, whatever happens
  to the entries before it: the entries whose child raises the \<^verbatim>\<open>ValidationError\<close> make up
  the error dictionary, each under its own name with the list of its own error, and the
  other entries make up the result. If the error dictionary is not empty, \<^verbatim>\<open>clean\<close> raises
  one \<^verbatim>\<open>ValidationError\<close> with that dictionary as its \<^verbatim>\<open>params\<close>; otherwise it returns the
  result.
\<close>

theorem clean_aggregates_field_errors:
  assumes "distinct (map fst val)"
    and "fst ` set val \<subseteq> fst ` set (child_blocks self)"
    and "\<forall>(name, v) \<in> set val. \<forall>x.
           block_clean (the (map_of (child_blocks self) name)) v = Inl x \<longrightarrow>
           (\<exists>e. x = Raised e)"
  shows "clean self val =
    (let result = concat (map (\<lambda>(name, v).
                      case block_clean (the (map_of (child_blocks self) name)) v of
                        Inl x \<Rightarrow> [] | Inr v' \<Rightarrow> [(name, v')]) val);
         errors = concat (map (\<lambda>(name, v).
                      case block_clean (the (map_of (child_blocks self) name)) v of
                        Inl (Raised e) \<Rightarrow> [(name, [e])] | Inl x \<Rightarrow> [] | Inr v' \<Rightarrow> []) val)
     in if errors \<noteq> [] then
          Inl (Raised (ValidationError ''Validation error in StructBlock'' (Some errors)))
        else Inr result)"
  using clean_loop_declared [OF assms, of "[]" "[]"]
  by (simp add: clean_def Let_def)

text \<open>
  The theorem at the struct of a title and a body: an empty title with a good body fails
  with the title alone in the payload; an empty title and a missing body value fail with
  both; two good values are returned.
\<close>

theorem clean_aggregates_field_errors_witness:
  "distinct (map fst [(''title'', Some []), (''body'', Some ''World'')]) \<and>
   fst ` set [(''title'', Some []), (''body'', Some ''World'')]
     = fst ` set (child_blocks example_struct) \<and>
   block_clean (example_char_block ''Untitled'') (Some []) =
     Inl (Raised (ValidationError ''This field is required.'' None)) \<and>
   block_clean (example_char_block ''Lorem'') (Some ''World'') = Inr (Some ''World'') \<and>
   clean example_struct [(''title'', Some []), (''body'', Some ''World'')] =
     Inl (Raised (ValidationError ''Validation error in StructBlock''
       (Some [(''title'', [ValidationError ''This field is required.'' None])]))) \<and>
   clean example_struct [(''title'', Some []), (''body'', None)] =
     Inl (Raised (ValidationError ''Validation error in StructBlock''
       (Some [(''title'', [ValidationError ''This field is required.'' None]),
              (''body'', [ValidationError ''This field is required.'' None])]))) \<and>
   clean example_struct [(''title'', Some ''Hello''), (''body'', Some ''World'')] =
     Inr [(''title'', Some ''Hello''), (''body'', Some ''World'')]"
  using clean_aggregates_field_errors
      [of "[(''title'', Some []), (''body'', Some ''World'')]" example_struct]
    clean_aggregates_field_errors
      [of "[(''title'', Some []), (''body'', None)]" example_struct]
    clean_aggregates_field_errors
      [of "[(''title'', Some ''Hello''), (''body'', Some ''World'')]" example_struct]
  by (simp add: example_struct_def example_char_block_def)

text \<open>
  Claim C1 as stated speaks of every input value. A value with an entry whose name is not
  declared refutes it: the title below fails validation, yet \<^verbatim>\<open>clean\<close> ends in a
  \<^verbatim>\<open>KeyError\<close> for the other entry and not in the aggregated validation error.
\<close>

theorem clean_undeclared_entry_counterexample:
  "block_clean (example_char_block ''Untitled'') (Some []) =
     Inl (Raised (ValidationError ''This field is required.'' None)) \<and>
   clean example_struct [(''title'', Some []), (''summary'', Some ''x'')] =
     Inl (KeyError ''summary'')"
  by (simp add: clean_def example_struct_def example_char_block_def odict_getitem_def
      odict_setitem_def)



section \<open>Properties of the form rendering\<close>

lemma child_renderings_cong:
  "\<forall>(name, b) \<in> set cbs.
      odict_get v name (meta_default b) = odict_get v' name (meta_default b) \<Longrightarrow>
   child_renderings cbs v prefix ed = child_renderings cbs v' prefix ed"
  by (induction cbs) (auto split: option.splits sum.splits)

lemma child_renderings_fragments:
  "map (\<lambda>(name, blk). block_render_form blk (odict_get val name (meta_default blk))
          (prefix @ ''-'' @ name) (map_of ed name)) cbs = map Inr fragments \<Longrightarrow>
   child_renderings cbs val prefix (Some ed) = Inr fragments"
proof (induction cbs arbitrary: fragments)
  case Nil
  then show ?case by simp
next
  case (Cons p cbs)
  obtain name blk where p: "p = (name, blk)" by (cases p)
  from Cons.prems obtain r rs where f: "fragments = r # rs" by (cases fragments) auto
  from Cons.prems have h: "block_render_form blk (odict_get val name (meta_default blk))
          (prefix @ ''-'' @ name) (map_of ed name) = Inr r"
    and t: "map (\<lambda>(name, blk). block_render_form blk (odict_get val name (meta_default blk))
          (prefix @ ''-'' @ name) (map_of ed name)) cbs = map Inr rs"
    by (simp_all add: p f)
  from h show ?case by (simp add: p f Cons.IH [OF t])
qed

lemma str_join_concat: "str_join sep xs = concat (butlast (concat (map (\<lambda>x. [x, sep]) xs)))"
  by (induction sep xs rule: str_join.induct) simp_all

lemma conditional_escape_case:
  "conditional_escape esc m = (case m of SafeText s \<Rightarrow> s | PlainText s \<Rightarrow> esc s)"
  by (cases m) simp_all

lemma markup_text_case: "markup_text m = (case m of SafeText s \<Rightarrow> s | PlainText s \<Rightarrow> s)"
  by (cases m) simp_all

text \<open>
  Claim C2. Handed an error list with more than one error, \<^verbatim>\<open>render_form\<close> renders
  nothing: it raises the \<^verbatim>\<open>TypeError\<close>, which is not a validation error.
\<close>

theorem render_form_multiple_errors:
  assumes "1 < length errs"
  shows "render_form esc self val prefix (Some errs) =
   Inl (TypeError ''StructBlock.render_form unexpectedly received multiple errors'')"
proof -
  from assms obtain e e' es where "errs = e # e' # es"
    by (cases errs; cases "tl errs") auto
  then show ?thesis by (simp add: render_form_def)
qed

theorem render_form_multiple_errors_witness:
  "1 < length [ValidationError ''a'' None, ValidationError ''b'' None] \<and>
   render_form (\<lambda>s. s) example_struct [(''title'', Some ''Hello'')] ''page''
     (Some [ValidationError ''a'' None, ValidationError ''b'' None]) =
   Inl (TypeError ''StructBlock.render_form unexpectedly received multiple errors'')"
  using render_form_multiple_errors
    [of "[ValidationError ''a'' None, ValidationError ''b'' None]" "\<lambda>s. s" example_struct
      "[(''title'', Some ''Hello'')]" "''page''"]
  by simp

text \<open>
  Claim C9, as amended. \<^verbatim>\<open>render_form\<close> is handed exactly one error whose \<^verbatim>\<open>params\<close> is a
  dictionary \<open>payload\<close> from field names to error lists. Each child, in declaration
  order, is asked for its own form of the value's entry (or its default) under the
  prefix \<^verbatim>\<open>prefix-name\<close>, with the entry of its name in the payload as its errors and with
  no errors (\<open>None\<close>) when the payload has no such entry. If every child returns a
  fragment, \<^verbatim>\<open>render_form\<close> returns the markup written out below: the container, the
  label when it is not empty (escaped unless it is marked safe), and one list item per
  child around the child's fragment (escaped unless it is marked safe), the items
  separated by the escaped newline.
\<close>

theorem render_form_distributes_errors:
  assumes "map (\<lambda>(name, blk).
                  block_render_form blk (odict_get val name (meta_default blk))
                    (prefix @ ''-'' @ name) (map_of payload name))
             (child_blocks self) = map Inr fragments"
  shows "render_form esc self val prefix (Some [ValidationError msg (Some payload)]) =
     Inr (SafeText
       ((if (case label self of SafeText s \<Rightarrow> s | PlainText s \<Rightarrow> s) \<noteq> []
         then ''<div class=\"struct-block\"><label>''
              @ (case label self of SafeText s \<Rightarrow> s | PlainText s \<Rightarrow> esc s)
              @ ''</label> <ul>''
         else ''<div class=\"struct-block\"><ul>'')
        @ concat (butlast (concat (map (\<lambda>r.
              [''<li>'' @ (case r of SafeText s \<Rightarrow> s | PlainText s \<Rightarrow> esc s) @ ''</li>'',
               esc [CHR 0x0A]]) fragments)))
        @ ''</ul></div>''))"
proof -
  have c: "child_renderings (child_blocks self) val prefix (Some payload) = Inr fragments"
    using assms by (rule child_renderings_fragments)
  have j: "format_html_join_li esc fragments =
      concat (butlast (concat (map (\<lambda>r.
        [''<li>'' @ (case r of SafeText s \<Rightarrow> s | PlainText s \<Rightarrow> esc s) @ ''</li>'',
         esc [CHR 0x0A]]) fragments)))"
    by (simp add: format_html_join_li_def str_join_concat conditional_escape_case comp_def)
  show ?thesis
    by (simp add: render_form_def c j Let_def conditional_escape_case markup_text_case)
qed

text \<open>
  The theorem at the struct of a title and a body, with a payload of two entries: two
  list items, each with the input under its own prefix followed by its own error. And at
  the struct whose label is marked safe, with a payload for the title alone: the label is
  written unescaped, and the nested child, which has no entry, renders its empty form.
\<close>

theorem render_form_distributes_errors_witness:
  "map (\<lambda>(name, blk).
          block_render_form blk (odict_get [(''title'', Some ''Hello'')] name (meta_default blk))
            (''page'' @ ''-'' @ name)
            (map_of [(''title'', [ValidationError ''Required.'' None]),
                     (''body'', [ValidationError ''Too long.'' None])] name))
     (child_blocks example_struct)
     = map Inr [SafeText ''<input name=page-title>Required.'',
                SafeText ''<input name=page-body>Too long.''] \<and>
   render_form example_escape example_struct [(''title'', Some ''Hello'')] ''page''
     (Some [ValidationError ''Validation error in StructBlock''
        (Some [(''title'', [ValidationError ''Required.'' None]),
               (''body'', [ValidationError ''Too long.'' None])])])
     = Inr (SafeText (''<div class=\"struct-block\"><label>Article</label> <ul>''
          @ ''<li><input name=page-title>Required.</li>'' @ [CHR 0x0A]
          @ ''<li><input name=page-body>Too long.</li>'' @ ''</ul></div>'')) \<and>
   render_form example_escape example_outer_struct [(''title'', Some ''Hello'')] ''page''
     (Some [ValidationError ''Validation error in StructBlock''
        (Some [(''title'', [ValidationError ''Required.'' None])])])
     = Inr (SafeText (''<div class=\"struct-block\"><label><b>Page</b></label> <ul>''
          @ ''<li><input name=page-title>Required.</li>'' @ [CHR 0x0A]
          @ ''<li><div class=\"struct-block\"><ul></ul></div></li>'' @ ''</ul></div>''))"
  using render_form_distributes_errors
    [of "[(''title'', Some ''Hello'')]" "''page''"
      "[(''title'', [ValidationError ''Required.'' None]),
        (''body'', [ValidationError ''Too long.'' None])]"
      example_struct
      "[SafeText ''<input name=page-title>Required.'',
        SafeText ''<input name=page-body>Too long.'']"
      example_escape "''Validation error in StructBlock''"]
    render_form_distributes_errors
    [of "[(''title'', Some ''Hello'')]" "''page''"
      "[(''title'', [ValidationError ''Required.'' None])]"
      example_outer_struct
      "[SafeText ''<input name=page-title>Required.'',
        SafeText ''<div class=\"struct-block\"><ul></ul></div>'']"
      example_escape "''Validation error in StructBlock''"]
  by (simp add: example_struct_def example_outer_struct_def example_empty_struct_def
      example_char_block_def example_nested_block_def example_escape_def odict_get_def
      render_form_def format_html_join_li_def)

text \<open>
  Claim C9 as stated promises a fragment per child for every such payload. The payload
  below maps the nested struct child to a list of two errors: that child's own
  \<^verbatim>\<open>render_form\<close> raises the \<^verbatim>\<open>TypeError\<close>, and the outer \<^verbatim>\<open>render_form\<close> ends in it without
  rendering the title either.
\<close>

theorem render_form_nested_errors_counterexample:
  "render_form example_escape example_outer_struct [(''title'', Some ''Hello'')] ''page''
     (Some [ValidationError ''Validation error in StructBlock''
        (Some [(''inner'', [ValidationError ''a'' None, ValidationError ''b'' None])])])
     = Inl (TypeError ''StructBlock.render_form unexpectedly received multiple errors'')"
  by (simp add: example_outer_struct_def example_empty_struct_def example_char_block_def
      example_nested_block_def odict_get_def render_form_def)

section \<open>Properties of normalisation\<close>

lemma prep_pairs_declared:
  "distinct (map fst cbs) \<Longrightarrow> set xs \<subseteq> set cbs \<Longrightarrow>
   prep_pairs cbs (map (\<lambda>(name, b). (name, f name b)) xs) =
     Inr (map (\<lambda>(name, b). (name, block_get_prep_value b (f name b))) xs)"
proof (induction xs)
  case Nil
  then show ?case by simp
next
  case (Cons p xs)
  obtain name b where p: "p = (name, b)" by (cases p)
  from Cons.prems have m: "map_of cbs name = Some b"
    by (intro map_of_is_SomeI) (simp_all add: p)
  from Cons have ih: "prep_pairs cbs (map (\<lambda>(name, b). (name, f name b)) xs) =
     Inr (map (\<lambda>(name, b). (name, block_get_prep_value b (f name b))) xs)"
    by simp
  show ?case by (simp add: p odict_getitem_def m ih)
qed

lemma prep_pairs_keys: "prep_pairs cbs val = Inr ps \<Longrightarrow> map fst ps = map fst val"
proof (induction val arbitrary: ps)
  case Nil
  then show ?case by simp
next
  case (Cons p val)
  obtain name v where p: "p = (name, v)" by (cases p)
  from Cons.prems Cons.IH show ?case
    by (auto simp: p split: sum.splits)
qed

lemma get_prep_value_named:
  assumes "distinct (map fst (child_blocks self))"
  shows "get_prep_value self
           (sv_items (StructValue self (map (\<lambda>(name, b). (name, f name b)) (child_blocks self)))) =
     Inr (map (\<lambda>(name, b). (name, block_get_prep_value b (f name b))) (child_blocks self))"
proof -
  have "prep_pairs (child_blocks self) (map (\<lambda>(name, b). (name, f name b)) (child_blocks self)) =
     Inr (map (\<lambda>(name, b). (name, block_get_prep_value b (f name b))) (child_blocks self))"
    by (rule prep_pairs_declared [OF assms]) simp
  then show ?thesis
    by (simp add: get_prep_value_def StructValue_items [OF assms] odict_of_pairs_distinct
        fst_comp_named assms)
qed

lemma get_prep_value_to_python:
  assumes "distinct (map fst (child_blocks self))"
  shows "get_prep_value self (sv_items (to_python self val)) =
     Inr (map (\<lambda>(name, b). (name, block_get_prep_value b
                 (block_to_python b (odict_get val name (meta_default b)))))
            (child_blocks self))"
  unfolding to_python_def
  by (rule get_prep_value_named
      [OF assms, of "\<lambda>name b. block_to_python b (odict_get val name (meta_default b))"])

lemma get_searchable_content_foldl:
  "foldl (\<lambda>content (name, blk). content @ g name blk) acc cbs =
   acc @ concat (map (\<lambda>(name, blk). g name blk) cbs)"
  by (induction cbs arbitrary: acc) auto

lemma get_searchable_content_concat:
  "get_searchable_content self val =
   concat (map (\<lambda>(name, blk).
      block_get_searchable_content blk (odict_get val name (meta_default blk)))
      (child_blocks self))"
  unfolding get_searchable_content_def
  using get_searchable_content_foldl
    [of "\<lambda>name blk. block_get_searchable_content blk (odict_get val name (meta_default blk))"
      "[]" "child_blocks self"]
  by simp

text \<open>
  Claim C3. The children's names are distinct (they are the keys of an ordered
  dictionary), and \<open>val\<close> is a valid input: each child's own normalisation is idempotent
  at the value the struct hands to it, the entry of \<open>val\<close> or the child's default. Then
  \<^verbatim>\<open>get_prep_value\<close> of \<^verbatim>\<open>to_python(val)\<close> returns (it raises nothing), and \<^verbatim>\<open>to_python\<close> of
  what it returns is \<^verbatim>\<open>to_python(val)\<close> again.
\<close>

theorem to_python_get_prep_value_roundtrip:
  assumes "distinct (map fst (child_blocks self))"
    and "\<forall>(name, b) \<in> set (child_blocks self).
           block_to_python b (block_get_prep_value b
              (block_to_python b (odict_get val name (meta_default b))))
           = block_to_python b (odict_get val name (meta_default b))"
  shows "\<exists>p. get_prep_value self (sv_items (to_python self val)) = Inr p \<and>
             to_python self p = to_python self val"
proof -
  let ?g = "\<lambda>name b. block_get_prep_value b
              (block_to_python b (odict_get val name (meta_default b)))"
  let ?p = "map (\<lambda>(name, b). (name, ?g name b)) (child_blocks self)"
  have 1: "get_prep_value self (sv_items (to_python self val)) = Inr ?p"
    by (rule get_prep_value_to_python [OF assms(1)])
  have "map (\<lambda>(name, b). (name, block_to_python b (odict_get ?p name (meta_default b))))
          (child_blocks self) =
        map (\<lambda>(name, b). (name, block_to_python b (odict_get val name (meta_default b))))
          (child_blocks self)"
  proof (rule map_cong [OF refl])
    fix x assume x: "x \<in> set (child_blocks self)"
    obtain name b where nb: "x = (name, b)" by (cases x)
    from x have "odict_get ?p name (meta_default b) = ?g name b"
      unfolding nb by (rule odict_get_named [OF assms(1)])
    moreover from assms(2) x have "block_to_python b (?g name b) =
        block_to_python b (odict_get val name (meta_default b))"
      by (auto simp: nb)
    ultimately show
      "(case x of (name, b) \<Rightarrow>
          (name, block_to_python b (odict_get ?p name (meta_default b))))
       = (case x of (name, b) \<Rightarrow>
          (name, block_to_python b (odict_get val name (meta_default b))))"
      by (simp add: nb)
  qed
  then have 2: "to_python self ?p = to_python self val"
    by (simp only: to_python_def)
  from 1 2 show ?thesis by blast
qed

text \<open>
  The theorem at a stored value that holds an empty body and no title: the title is
  filled from its default and the body is normalised to the empty string.
\<close>

theorem to_python_get_prep_value_roundtrip_witness:
  "distinct (map fst (child_blocks example_struct)) \<and>
   get_prep_value example_struct (sv_items (to_python example_struct [(''body'', None)])) =
     Inr [(''title'', Some ''Untitled''), (''body'', Some [])] \<and>
   to_python example_struct [(''title'', Some ''Untitled''), (''body'', Some [])] =
     to_python example_struct [(''body'', None)]"
  using to_python_get_prep_value_roundtrip [of example_struct "[(''body'', None)]"]
  by (simp add: example_struct_def example_char_block_def to_python_def get_prep_value_def
      StructValue_def odict_of_pairs_def odict_setitem_def odict_get_def odict_getitem_def)

section \<open>Fields that the value does not hold\<close>

lemma get_with_default_filled:
  assumes d: "distinct (map fst cbs)" and m: "map_of cbs name = Some blk"
    and a: "name \<notin> fst ` set val" and x: "(n, b) \<in> set cbs"
  shows "odict_get (odict_setitem val name (meta_default blk)) n (meta_default b)
       = odict_get val n (meta_default b)"
proof (cases "n = name")
  case True
  from d x have "map_of cbs n = Some b" by (rule map_of_is_SomeI)
  with m True have "b = blk" by simp
  with True a show ?thesis by (simp add: odict_get_setitem odict_get_absent)
next
  case False
  then show ?thesis by (simp add: odict_get_setitem)
qed

lemma prep_pairs_absent:
  "prep_pairs cbs val = Inr ps \<Longrightarrow> name \<notin> fst ` set val \<Longrightarrow> name \<notin> fst ` set ps"
  using prep_pairs_keys [of cbs val ps] by (metis list.set_map)

text \<open>
  Claim C5, as amended. Let \<open>name\<close> be a declared field, with the definition \<open>blk\<close>, that
  the value does not hold. \<^verbatim>\<open>render_form\<close>, \<^verbatim>\<open>to_python\<close> and \<^verbatim>\<open>get_searchable_content\<close> then
  give what they give for the value with the field's configured default stored under
  \<open>name\<close>; in particular the struct value of \<^verbatim>\<open>to_python\<close> holds the child's \<^verbatim>\<open>to_python\<close> of
  the default there. \<^verbatim>\<open>get_prep_value\<close> converts the entries of the value and nothing
  else: what it returns has no entry for \<open>name\<close>.
\<close>

theorem absent_field_takes_default:
  assumes d: "distinct (map fst (child_blocks self))"
    and m: "map_of (child_blocks self) name = Some blk"
    and a: "name \<notin> fst ` set val"
  shows "render_form esc self val prefix errors =
           render_form esc self (odict_setitem val name (meta_default blk)) prefix errors
       \<and> to_python self val = to_python self (odict_setitem val name (meta_default blk))
       \<and> map_of (sv_items (to_python self val)) name
           = Some (block_to_python blk (meta_default blk))
       \<and> get_searchable_content self val =
           get_searchable_content self (odict_setitem val name (meta_default blk))
       \<and> (\<forall>p. get_prep_value self val = Inr p \<longrightarrow> map_of p name = None)"
proof -
  let ?val' = "odict_setitem val name (meta_default blk)"
  have eq: "\<forall>(n, b) \<in> set (child_blocks self).
      odict_get val n (meta_default b) = odict_get ?val' n (meta_default b)"
    using get_with_default_filled [OF d m a] by auto
  have r: "render_form esc self val prefix errors = render_form esc self ?val' prefix errors"
    by (simp only: render_form_def child_renderings_cong [OF eq])
  have "map (\<lambda>(name, child_block).
               (name, block_to_python child_block (odict_get val name (meta_default child_block))))
          (child_blocks self) =
       map (\<lambda>(name, child_block).
               (name, block_to_python child_block (odict_get ?val' name (meta_default child_block))))
          (child_blocks self)"
    using eq by (intro map_cong [OF refl]) auto
  then have t: "to_python self val = to_python self ?val'"
    by (simp only: to_python_def)
  have t2: "map_of (sv_items (to_python self val)) name
      = Some (block_to_python blk (meta_default blk))"
  proof -
    have mem: "(name, blk) \<in> set (child_blocks self)" using m by (rule map_of_SomeD)
    have i: "sv_items (to_python self val) =
      map (\<lambda>(name, b). (name, block_to_python b (odict_get val name (meta_default b))))
        (child_blocks self)"
      unfolding to_python_def by (rule StructValue_items [OF d])
    have "distinct (map fst (sv_items (to_python self val)))"
      using d by (simp add: i fst_comp_named)
    moreover have "(name, block_to_python blk (odict_get val name (meta_default blk)))
        \<in> set (sv_items (to_python self val))"
      unfolding i using mem by force
    ultimately have "map_of (sv_items (to_python self val)) name
        = Some (block_to_python blk (odict_get val name (meta_default blk)))"
      by (rule map_of_is_SomeI)
    then show ?thesis using a by (simp add: odict_get_absent)
  qed
  have s: "get_searchable_content self val = get_searchable_content self ?val'"
    unfolding get_searchable_content_concat
    using eq by (intro arg_cong [where f = concat] map_cong [OF refl]) auto
  have g: "\<forall>p. get_prep_value self val = Inr p \<longrightarrow> map_of p name = None"
  proof (intro allI impI)
    fix p assume "get_prep_value self val = Inr p"
    then obtain ps where ps: "prep_pairs (child_blocks self) val = Inr ps"
      and p: "p = odict_of_pairs ps"
      by (auto simp: get_prep_value_def split: sum.splits)
    have "fst ` set p \<subseteq> fst ` set ps"
      by (simp add: p odict_of_pairs_keys)
    with prep_pairs_absent [OF ps a] have "name \<notin> fst ` set p" by auto
    then show "map_of p name = None" by (simp add: map_of_eq_None_iff)
  qed
  from r t t2 s g show ?thesis by blast
qed

text \<open>
  The theorem at a value that holds the title only: the body takes its default,
  \<^verbatim>\<open>Lorem\<close>, in the three operations, and \<^verbatim>\<open>get_prep_value\<close> returns the title alone.
\<close>

theorem absent_field_takes_default_witness:
  "distinct (map fst (child_blocks example_struct)) \<and>
   map_of (child_blocks example_struct) ''body'' = Some (example_char_block ''Lorem'') \<and>
   ''body'' \<notin> fst ` set [(''title'', Some ''Hello'')] \<and>
   render_form (\<lambda>s. s) example_struct [(''title'', Some ''Hello'')] ''page'' None =
     render_form (\<lambda>s. s) example_struct
       [(''title'', Some ''Hello''), (''body'', Some ''Lorem'')] ''page'' None \<and>
   to_python example_struct [(''title'', Some ''Hello'')] =
     to_python example_struct [(''title'', Some ''Hello''), (''body'', Some ''Lorem'')] \<and>
   sv_items (to_python example_struct [(''title'', Some ''Hello'')]) =
     [(''title'', Some ''Hello''), (''body'', Some ''Lorem'')] \<and>
   get_searchable_content example_struct [(''title'', Some ''Hello'')] = [''Hello'', ''Lorem''] \<and>
   get_prep_value example_struct [(''title'', Some ''Hello'')] = Inr [(''title'', Some ''Hello'')]"
  using absent_field_takes_default [of example_struct "''body''" "example_char_block ''Lorem''"
      "[(''title'', Some ''Hello'')]" "\<lambda>s. s" "''page''" None]
  by (simp add: example_struct_def example_char_block_def get_prep_value_def to_python_def
      get_searchable_content_def render_form_def
      StructValue_def odict_of_pairs_def odict_setitem_def odict_getitem_def odict_get_def)

text \<open>
  Claim C5 as stated counts \<^verbatim>\<open>get_prep_value\<close> among the operations that substitute the
  default. The body is declared with the default \<^verbatim>\<open>Lorem\<close> and the value does not hold
  it: \<^verbatim>\<open>get_prep_value\<close> returns the title alone, with no entry for the body.
\<close>

theorem get_prep_value_default_counterexample:
  "map (\<lambda>(name, blk). (name, meta_default blk)) (child_blocks example_struct) =
     [(''title'', Some ''Untitled''), (''body'', Some ''Lorem'')] \<and>
   get_prep_value example_struct [(''title'', Some ''Hello'')] = Inr [(''title'', Some ''Hello'')]"
  by (simp add: example_struct_def example_char_block_def get_prep_value_def
      odict_of_pairs_def odict_setitem_def odict_getitem_def)

section \<open>Bound blocks are computed once\<close>

lemma compute_bound_blocks_pairs:
  "distinct (map fst (child_blocks (sv_block sv))) \<Longrightarrow>
   compute_bound_blocks n sv =
     map (\<lambda>(name, blk). (name, bind blk (odict_get (sv_items sv) name n)))
       (child_blocks (sv_block sv))"
  by (simp add: compute_bound_blocks_def odict_of_pairs_distinct fst_comp_named)

lemma bound_blocks_cached:
  "sv_bound_blocks sv = Some bbs \<Longrightarrow> bound_blocks n sv = (bbs, sv)"
  by (simp add: bound_blocks_def)

lemma bound_blocks_repeat:
  "sv_bound_blocks sv = Some bbs \<Longrightarrow> ((\<lambda>s. snd (bound_blocks n s)) ^^ m) sv = sv"
  by (induction m) (simp_all add: bound_blocks_cached)

text \<open>
  Claim C6, as amended. Take a struct value that has not computed its bound blocks yet,
  over a descriptor with distinct field names, and let \<open>n\<close> be Python's \<^verbatim>\<open>None\<close>. The
  first access returns one entry per declared field, in declaration order, that binds
  the field definition to the instance's value for the field, and to \<^verbatim>\<open>None\<close> (not to
  the field's default) when the instance holds no such field; the access stores that
  dictionary in the instance. Any number \<open>m\<close> of further accesses leaves the instance as
  it is, and a later access returns the stored dictionary whatever the instance's items
  are by then: nothing is computed a second time.
\<close>

theorem bound_blocks_computed_once:
  assumes d: "distinct (map fst (child_blocks (sv_block sv)))"
    and c: "sv_bound_blocks sv = None"
  shows "fst (bound_blocks n sv) =
           map (\<lambda>(name, blk). (name, bind blk (odict_get (sv_items sv) name n)))
             (child_blocks (sv_block sv))
       \<and> snd (bound_blocks n sv) = sv\<lparr>sv_bound_blocks := Some (fst (bound_blocks n sv))\<rparr>
       \<and> ((\<lambda>s. snd (bound_blocks n s)) ^^ m) (snd (bound_blocks n sv)) = snd (bound_blocks n sv)
       \<and> bound_blocks n' ((snd (bound_blocks n sv))\<lparr>sv_items := its\<rparr>) =
           (fst (bound_blocks n sv), (snd (bound_blocks n sv))\<lparr>sv_items := its\<rparr>)"
proof -
  let ?bbs = "compute_bound_blocks n sv"
  have b: "bound_blocks n sv = (?bbs, sv\<lparr>sv_bound_blocks := Some ?bbs\<rparr>)"
    using c by (simp add: bound_blocks_def Let_def)
  have 1: "fst (bound_blocks n sv) =
           map (\<lambda>(name, blk). (name, bind blk (odict_get (sv_items sv) name n)))
             (child_blocks (sv_block sv))"
    by (simp add: b compute_bound_blocks_pairs [OF d])
  have 2: "snd (bound_blocks n sv) = sv\<lparr>sv_bound_blocks := Some (fst (bound_blocks n sv))\<rparr>"
    by (simp add: b)
  have 3: "((\<lambda>s. snd (bound_blocks n s)) ^^ m) (snd (bound_blocks n sv)) = snd (bound_blocks n sv)"
    by (rule bound_blocks_repeat [of _ ?bbs]) (simp add: b)
  have 4: "bound_blocks n' ((snd (bound_blocks n sv))\<lparr>sv_items := its\<rparr>) =
           (fst (bound_blocks n sv), (snd (bound_blocks n sv))\<lparr>sv_items := its\<rparr>)"
    unfolding b fst_conv snd_conv by (rule bound_blocks_cached) simp
  from 1 2 3 4 show ?thesis by blast
qed

text \<open>
  The theorem at a fresh struct value that holds the title only: the body is bound to
  \<^verbatim>\<open>None\<close>, and an access after the items have changed still returns the first
  dictionary.
\<close>

theorem bound_blocks_computed_once_witness:
  "distinct (map fst (child_blocks
     (sv_block (StructValue example_struct [(''title'', Some ''Hello'')])))) \<and>
   sv_bound_blocks (StructValue example_struct [(''title'', Some ''Hello'')]) = None \<and>
   fst (bound_blocks None (StructValue example_struct [(''title'', Some ''Hello'')])) =
     [(''title'', bind (example_char_block ''Untitled'') (Some ''Hello'')),
      (''body'', bind (example_char_block ''Lorem'') None)] \<and>
   fst (bound_blocks None
     ((snd (bound_blocks None (StructValue example_struct [(''title'', Some ''Hello'')])))
        \<lparr>sv_items := [(''title'', Some ''Changed'')]\<rparr>)) =
     [(''title'', bind (example_char_block ''Untitled'') (Some ''Hello'')),
      (''body'', bind (example_char_block ''Lorem'') None)]"
  using bound_blocks_computed_once [of "StructValue example_struct [(''title'', Some ''Hello'')]"
      None 0 None "[(''title'', Some ''Changed'')]"]
  by (simp add: StructValue_def example_struct_def odict_of_pairs_def odict_setitem_def
      odict_get_def bound_blocks_def compute_bound_blocks_def Let_def)

text \<open>
  Claim C6 as stated binds an absent field to the field's default. The body is declared
  with the default \<^verbatim>\<open>Lorem\<close>; in the bound blocks of a struct value that holds the title
  only, the body's value is \<^verbatim>\<open>None\<close>.
\<close>

theorem bound_blocks_default_counterexample:
  "map (\<lambda>(name, bb). (name, bb_value bb))
     (fst (bound_blocks None (StructValue example_struct [(''title'', Some ''Hello'')]))) =
     [(''title'', Some ''Hello''), (''body'', None)] \<and>
   map (\<lambda>(name, blk). (name, meta_default blk)) (child_blocks example_struct) =
     [(''title'', Some ''Untitled''), (''body'', Some ''Lorem'')]"
  by (simp add: bound_blocks_def compute_bound_blocks_def StructValue_def example_struct_def
      example_char_block_def odict_of_pairs_def odict_setitem_def odict_get_def bind_def Let_def)

section \<open>Declaration order\<close>

text \<open>
  Claim C4, as amended. Over a descriptor with distinct field names, the struct values of
  \<^verbatim>\<open>value_from_datadict\<close> and \<^verbatim>\<open>to_python\<close> and the bound blocks of a fresh struct value list
  the declared names in declaration order, and \<^verbatim>\<open>get_searchable_content\<close> is the
  concatenation of the children's fragments in declaration order. \<^verbatim>\<open>get_prep_value\<close>
  returns a plain dictionary (an \<open>odict\<close>, not a \<open>struct_value\<close>) whose entries follow the
  order of the value it is given; that is the declaration order when the value comes
  from \<^verbatim>\<open>to_python\<close> or \<^verbatim>\<open>value_from_datadict\<close>, where \<^verbatim>\<open>get_prep_value\<close> raises nothing.
\<close>

theorem declaration_order_preserved:
  assumes d: "distinct (map fst (child_blocks self))"
  shows "map fst (sv_items (value_from_datadict self data files prefix))
           = map fst (child_blocks self)
       \<and> map fst (sv_items (to_python self val)) = map fst (child_blocks self)
       \<and> get_searchable_content self val =
           concat (map (\<lambda>(name, blk).
              block_get_searchable_content blk (odict_get val name (meta_default blk)))
              (child_blocks self))
       \<and> map fst (fst (bound_blocks n (StructValue self ps))) = map fst (child_blocks self)
       \<and> (\<forall>p. distinct (map fst val) \<and> get_prep_value self val = Inr p \<longrightarrow>
             map fst p = map fst val)
       \<and> (\<exists>p. get_prep_value self (sv_items (to_python self val)) = Inr p \<and>
             map fst p = map fst (child_blocks self))
       \<and> (\<exists>p. get_prep_value self (sv_items (value_from_datadict self data files prefix)) = Inr p \<and>
             map fst p = map fst (child_blocks self))"
proof -
  have 1: "map fst (sv_items (value_from_datadict self data files prefix))
      = map fst (child_blocks self)"
    unfolding value_from_datadict_def
    by (simp add: StructValue_items [OF d] fst_comp_named)
  have 2: "map fst (sv_items (to_python self val)) = map fst (child_blocks self)"
    unfolding to_python_def
    by (simp add: StructValue_items [OF d] fst_comp_named)
  have 3: "get_searchable_content self val =
           concat (map (\<lambda>(name, blk).
              block_get_searchable_content blk (odict_get val name (meta_default blk)))
              (child_blocks self))"
    by (rule get_searchable_content_concat)
  have "sv_bound_blocks (StructValue self ps) = None" "sv_block (StructValue self ps) = self"
    by (simp_all add: StructValue_def)
  then have 4: "map fst (fst (bound_blocks n (StructValue self ps))) = map fst (child_blocks self)"
    using d by (simp add: bound_blocks_def Let_def compute_bound_blocks_pairs fst_comp_named)
  have 5: "\<forall>p. distinct (map fst val) \<and> get_prep_value self val = Inr p \<longrightarrow>
             map fst p = map fst val"
  proof (intro allI impI, elim conjE)
    fix p assume dv: "distinct (map fst val)" and g: "get_prep_value self val = Inr p"
    then obtain qs where qs: "prep_pairs (child_blocks self) val = Inr qs"
      and p: "p = odict_of_pairs qs"
      by (auto simp: get_prep_value_def split: sum.splits)
    from prep_pairs_keys [OF qs] have k: "map fst qs = map fst val" .
    with dv have "odict_of_pairs qs = qs" by (simp add: odict_of_pairs_distinct)
    with p k show "map fst p = map fst val" by simp
  qed
  have 6: "\<exists>p. get_prep_value self (sv_items (to_python self val)) = Inr p \<and>
             map fst p = map fst (child_blocks self)"
    by (simp add: get_prep_value_to_python [OF d] fst_comp_named)
  have 7: "\<exists>p. get_prep_value self (sv_items (value_from_datadict self data files prefix)) = Inr p \<and>
             map fst p = map fst (child_blocks self)"
    unfolding value_from_datadict_def
    by (simp add: get_prep_value_named [OF d] fst_comp_named)
  from 1 2 3 4 5 6 7 show ?thesis by blast
qed

text \<open>
  The theorem at a stored value that lists the body before the title: every output is
  in the order title, body.
\<close>

theorem declaration_order_preserved_witness:
  "distinct (map fst (child_blocks example_struct)) \<and>
   map fst (sv_items (value_from_datadict example_struct [(''page-body'', ''World'')] () ''page''))
     = [''title'', ''body''] \<and>
   map fst (sv_items (to_python example_struct
       [(''body'', Some ''World''), (''title'', Some ''Hello'')]))
     = [''title'', ''body''] \<and>
   get_searchable_content example_struct [(''body'', Some ''World''), (''title'', Some ''Hello'')]
     = [''Hello'', ''World''] \<and>
   map fst (fst (bound_blocks None (StructValue example_struct
       [(''body'', Some ''World''), (''title'', Some ''Hello'')])))
     = [''title'', ''body''] \<and>
   get_prep_value example_struct (sv_items (to_python example_struct
       [(''body'', Some ''World''), (''title'', Some ''Hello'')]))
     = Inr [(''title'', Some ''Hello''), (''body'', Some ''World'')]"
  using declaration_order_preserved [of example_struct "[(''page-body'', ''World'')]" "()"
      "''page''" "[(''body'', Some ''World''), (''title'', Some ''Hello'')]" None
      "[(''body'', Some ''World''), (''title'', Some ''Hello'')]"]
  by (simp add: example_struct_def example_char_block_def get_prep_value_def to_python_def
      StructValue_def odict_of_pairs_def odict_setitem_def odict_getitem_def odict_get_def)

text \<open>
  Claim C4 as stated has \<^verbatim>\<open>get_prep_value\<close> keep the declaration order on every input.
  The descriptor declares the title before the body; for a value that lists the body
  first, \<^verbatim>\<open>get_prep_value\<close> returns the body first.
\<close>

theorem get_prep_value_order_counterexample:
  "map fst (child_blocks example_struct) = [''title'', ''body''] \<and>
   get_prep_value example_struct [(''body'', Some ''World''), (''title'', Some ''Hello'')] =
     Inr [(''body'', Some ''World''), (''title'', Some ''Hello'')]"
  by (simp add: example_struct_def example_char_block_def get_prep_value_def
      odict_of_pairs_def odict_setitem_def odict_getitem_def)

section \<open>Construction and deconstruction\<close>

lemma foldl_setitem_map_of:
  "map_of (foldl (\<lambda>d (k, v). odict_setitem d k v) d ps) = map_of (rev ps @ d)"
proof (induction ps arbitrary: d)
  case Nil
  then show ?case by simp
next
  case (Cons p ps)
  obtain k v where p: "p = (k, v)" by (cases p)
  have "map_of (foldl (\<lambda>d (k, v). odict_setitem d k v) d (p # ps)) =
      map_of (rev ps @ odict_setitem d k v)"
    by (simp add: p Cons.IH)
  also have "\<dots> = map_of (rev (p # ps) @ d)"
    by (simp add: p odict_setitem_def update_conv' map_add_def fun_eq_iff split: option.splits)
  finally show ?case .
qed

lemma remdups_later: "x \<in> set ys \<Longrightarrow> remdups (xs @ x # ys) = remdups (xs @ ys)"
  by (induction xs) auto

lemma foldl_setitem_order:
  "distinct (map fst d) \<Longrightarrow>
   map fst (foldl (\<lambda>d (k, v). odict_setitem d k v) d ps) =
   rev (remdups (rev (map fst d @ map fst ps)))"
proof (induction ps arbitrary: d)
  case Nil
  then show ?case by (simp add: distinct_remdups_id)
next
  case (Cons p ps)
  obtain k v where p: "p = (k, v)" by (cases p)
  let ?d' = "odict_setitem d k v"
  have d': "distinct (map fst ?d')"
    unfolding odict_setitem_def using Cons.prems by (rule distinct_update)
  have ks: "map fst ?d' = (if k \<in> set (map fst d) then map fst d else map fst d @ [k])"
    unfolding odict_setitem_def by (rule update_keys)
  have "remdups (rev (map fst ?d' @ map fst ps)) = remdups (rev (map fst d @ k # map fst ps))"
  proof (cases "k \<in> set (map fst d)")
    case True
    then have "k \<in> set (rev (map fst d))" by simp
    from remdups_later [OF this, of "rev (map fst ps)"] True show ?thesis
      by (simp add: ks)
  next
    case False
    then show ?thesis by (simp add: ks)
  qed
  with Cons.IH [OF d'] show ?case by (simp add: p)
qed

lemma foldl_setitem_prefix:
  "\<exists>new. map fst (foldl (\<lambda>d (k, v). odict_setitem d k v) d ps) = map fst d @ new"
proof (induction ps arbitrary: d)
  case Nil
  then show ?case by simp
next
  case (Cons p ps)
  obtain k v where p: "p = (k, v)" by (cases p)
  let ?d' = "odict_setitem d k v"
  have ks: "map fst ?d' = (if k \<in> set (map fst d) then map fst d else map fst d @ [k])"
    unfolding odict_setitem_def by (rule update_keys)
  from Cons.IH [of ?d'] obtain new where
    "map fst (foldl (\<lambda>d (k, v). odict_setitem d k v) ?d' ps) = map fst ?d' @ new"
    by blast
  then show ?case by (cases "k \<in> set (map fst d)") (simp_all add: p ks)
qed

lemma foldl_setitem_keys_distinct:
  "distinct (map fst d) \<Longrightarrow>
   distinct (map fst (foldl (\<lambda>d (k, v). odict_setitem d k v) d ps))"
proof (induction ps arbitrary: d)
  case Nil
  then show ?case by simp
next
  case (Cons p ps)
  obtain k v where p: "p = (k, v)" by (cases p)
  have "distinct (map fst (odict_setitem d k v))"
    unfolding odict_setitem_def using Cons.prems by (rule distinct_update)
  from Cons.IH [OF this] show ?case by (simp add: p)
qed

lemma supplement_odicts:
  "d < length (odicts s) \<Longrightarrow>
   odicts (supplement sn s d lbs) =
     (odicts s)[d := foldl (\<lambda>dd (k, v). odict_setitem dd k v) (odicts s ! d) lbs]"
  by (induction sn s d lbs rule: supplement.induct)
     (simp_all add: store_setitem_def store_set_name_def)

lemma supplement_objects:
  "objects (supplement sn s d lbs) =
     foldl (\<lambda>os (name, r). os[r := sn name (os ! r)]) (objects s) lbs"
  by (induction sn s d lbs rule: supplement.induct)
     (simp_all add: store_setitem_def store_set_name_def)

lemma renamed_length:
  "length (foldl (\<lambda>os (name, r). os[r := sn name (os ! r)]) os lbs) = length os"
  by (induction lbs arbitrary: os) auto

lemma renamed_nth:
  "r < length os \<Longrightarrow>
   foldl (\<lambda>os (name, r). os[r := sn name (os ! r)]) os lbs ! r =
   foldl (\<lambda>blk name. sn name blk) (os ! r) (map fst (filter (\<lambda>(name, r'). r' = r) lbs))"
proof (induction lbs arbitrary: os)
  case Nil
  then show ?case by simp
next
  case (Cons p lbs)
  obtain name r0 where p: "p = (name, r0)" by (cases p)
  let ?os' = "os[r0 := sn name (os ! r0)]"
  from Cons.prems have l: "r < length ?os'" by simp
  from Cons.prems have n: "?os' ! r = (if r0 = r then sn name (os ! r) else os ! r)"
    by (auto simp: nth_list_update)
  have "foldl (\<lambda>os (name, r). os[r := sn name (os ! r)]) os (p # lbs) ! r =
      foldl (\<lambda>os (name, r). os[r := sn name (os ! r)]) ?os' lbs ! r"
    by (simp add: p)
  also have "\<dots> = foldl (\<lambda>blk name. sn name blk) (?os' ! r)
      (map fst (filter (\<lambda>(name, r'). r' = r) lbs))"
    by (rule Cons.IH [OF l])
  also have "\<dots> = foldl (\<lambda>blk name. sn name blk) (os ! r)
      (map fst (filter (\<lambda>(name, r'). r' = r) (p # lbs)))"
    unfolding n by (cases "r0 = r") (simp_all add: p)
  finally show ?case .
qed

lemma store_items_unrenamed:
  assumes "\<forall>(name, r) \<in> set dd. r < length os \<and> r \<notin> snd ` set lbs"
  shows "map (\<lambda>(name, r). (name,
            foldl (\<lambda>os (name, r). os[r := sn name (os ! r)]) os lbs ! r)) dd =
         map (\<lambda>(name, r). (name, os ! r)) dd"
proof (rule map_cong [OF refl])
  fix x assume x: "x \<in> set dd"
  obtain name r where nr: "x = (name, r)" by (cases x)
  from assms x have v: "r < length os" and f: "r \<notin> snd ` set lbs" by (auto simp: nr)
  from f have "filter (\<lambda>(name, r'). r' = r) lbs = []"
    by (force simp: filter_empty_conv)
  with renamed_nth [OF v, of sn lbs]
  show "(case x of (name, r) \<Rightarrow> (name,
            foldl (\<lambda>os (name, r). os[r := sn name (os ! r)]) os lbs ! r))
      = (case x of (name, r) \<Rightarrow> (name, os ! r))"
    by (simp add: nr)
qed

lemma init_result:
  assumes "base_blocks < length (odicts s)"
  shows "odicts (fst (init sn label_of s base_blocks local_blocks kwargs)) =
           odicts s @ [foldl (\<lambda>d (k, v). odict_setitem d k v) (odicts s ! base_blocks)
                          (case local_blocks of None \<Rightarrow> [] | Some lbs \<Rightarrow> lbs)]"
    and "objects (fst (init sn label_of s base_blocks local_blocks kwargs)) =
           foldl (\<lambda>os (name, r). os[r := sn name (os ! r)]) (objects s)
             (case local_blocks of None \<Rightarrow> [] | Some lbs \<Rightarrow> lbs)"
    and "child_blocks (snd (init sn label_of s base_blocks local_blocks kwargs)) =
           store_items (fst (init sn label_of s base_blocks local_blocks kwargs))
             (length (odicts s))"
    and "constructor_kwargs (snd (init sn label_of s base_blocks local_blocks kwargs)) = kwargs"
proof -
  let ?s1 = "s\<lparr>odicts := odicts s @ [odicts s ! base_blocks]\<rparr>"
  let ?lbs = "case local_blocks of None \<Rightarrow> [] | Some lbs \<Rightarrow> lbs"
  have s2: "fst (init sn label_of s base_blocks local_blocks kwargs)
      = supplement sn ?s1 (length (odicts s)) ?lbs"
    by (cases local_blocks; cases "the local_blocks")
       (simp_all add: init_def store_copy_def Let_def)
  have r: "length (odicts s) < length (odicts ?s1)" by simp
  show "odicts (fst (init sn label_of s base_blocks local_blocks kwargs)) =
           odicts s @ [foldl (\<lambda>d (k, v). odict_setitem d k v) (odicts s ! base_blocks) ?lbs]"
    unfolding s2 supplement_odicts [OF r] by simp
  show "objects (fst (init sn label_of s base_blocks local_blocks kwargs)) =
           foldl (\<lambda>os (name, r). os[r := sn name (os ! r)]) (objects s) ?lbs"
    unfolding s2 supplement_objects by simp
  show "child_blocks (snd (init sn label_of s base_blocks local_blocks kwargs)) =
           store_items (fst (init sn label_of s base_blocks local_blocks kwargs))
             (length (odicts s))"
    by (cases local_blocks; cases "the local_blocks")
       (simp_all add: init_def store_copy_def Let_def)
  show "constructor_kwargs (snd (init sn label_of s base_blocks local_blocks kwargs)) = kwargs"
    by (simp add: init_def store_copy_def Let_def split: prod.splits)
qed

text \<open>
  Claim C7, as amended. Let the class's base set be a dictionary of the store \<open>s\<close> and
  let \<open>lbs\<close> be the supplemental pairs of names and field-definition objects (none when
  \<^verbatim>\<open>local_blocks\<close> is \<^verbatim>\<open>None\<close>). Construction returns a descriptor and the store \<open>s'\<close>, and
  raises nothing.

  \<^item> Every dictionary that was in the store, the base set among them, holds the same
    names for the same objects as before; the children are a new dictionary.
  \<^item> A field-definition object is changed by \<^verbatim>\<open>set_name\<close> only: it has been given, one
    after the other, the names it is paired with among the supplemental pairs. An object
    that is not supplemental is as it was. So when the base set holds none of the
    supplemental objects it shows the same field definitions as before; when it holds
    one, that field definition is seen renamed through the base set.
  \<^item> A name maps to the object of the last supplemental pair given for it and otherwise
    to the object of the base set. The names stand in the order of their first
    appearance in the base set followed by the supplemental pairs, so the base names
    keep their positions and a replacing definition stands where the earlier one stood;
    the names stay distinct.
\<close>

theorem init_supplements_copy:
  fixes local_blocks :: "(string \<times> nat) list option"
    and s :: "('v, 'd, 'f) store"
  defines "lbs \<equiv> case local_blocks of None \<Rightarrow> [] | Some l \<Rightarrow> l"
  assumes b: "base_blocks < length (odicts s)"
    and d: "distinct (map fst (odicts s ! base_blocks))"
    and i: "init set_name label_of s base_blocks local_blocks kwargs = (s', self)"
  shows "take (length (odicts s)) (odicts s') = odicts s
       \<and> odicts s' ! base_blocks = odicts s ! base_blocks
       \<and> length (odicts s') = Suc (length (odicts s))
       \<and> child_blocks self = store_items s' (length (odicts s))
       \<and> length (objects s') = length (objects s)
       \<and> (\<forall>r. r < length (objects s) \<longrightarrow>
             objects s' ! r =
               foldl (\<lambda>blk name. set_name name blk) (objects s ! r)
                 (map fst (filter (\<lambda>(name, r'). r' = r) lbs)))
       \<and> ((\<forall>(name, r) \<in> set (odicts s ! base_blocks).
               r < length (objects s) \<and> r \<notin> snd ` set lbs) \<longrightarrow>
            store_items s' base_blocks = store_items s base_blocks)
       \<and> map_of (odicts s' ! length (odicts s)) = map_of (rev lbs @ odicts s ! base_blocks)
       \<and> map fst (child_blocks self) =
           rev (remdups (rev (map fst (odicts s ! base_blocks) @ map fst lbs)))
       \<and> take (length (odicts s ! base_blocks)) (map fst (child_blocks self))
           = map fst (odicts s ! base_blocks)
       \<and> distinct (map fst (child_blocks self))"
proof -
  from i have s': "s' = fst (init set_name label_of s base_blocks local_blocks kwargs)"
    and self: "self = snd (init set_name label_of s base_blocks local_blocks kwargs)"
    by simp_all
  note r = init_result [OF b, of set_name label_of local_blocks kwargs, folded s' self lbs_def]
  let ?new = "foldl (\<lambda>d (k, v). odict_setitem d k v) (odicts s ! base_blocks) lbs"
  have 1: "take (length (odicts s)) (odicts s') = odicts s" by (simp add: r(1))
  have 2: "odicts s' ! base_blocks = odicts s ! base_blocks"
    using b by (simp add: r(1) nth_append)
  have 3: "length (odicts s') = Suc (length (odicts s))" by (simp add: r(1))
  have 4: "child_blocks self = store_items s' (length (odicts s))" by (rule r(3))
  have 5: "length (objects s') = length (objects s)" by (simp add: r(2) renamed_length)
  have 6: "\<forall>r. r < length (objects s) \<longrightarrow>
             objects s' ! r =
               foldl (\<lambda>blk name. set_name name blk) (objects s ! r)
                 (map fst (filter (\<lambda>(name, r'). r' = r) lbs))"
    by (simp add: r(2) renamed_nth)
  have 7: "(\<forall>(name, r) \<in> set (odicts s ! base_blocks).
               r < length (objects s) \<and> r \<notin> snd ` set lbs) \<longrightarrow>
            store_items s' base_blocks = store_items s base_blocks"
  proof
    assume "\<forall>(name, r) \<in> set (odicts s ! base_blocks).
               r < length (objects s) \<and> r \<notin> snd ` set lbs"
    from store_items_unrenamed [OF this, of set_name]
    show "store_items s' base_blocks = store_items s base_blocks"
      unfolding store_items_def 2 r(2) .
  qed
  have n: "odicts s' ! length (odicts s) = ?new" by (simp add: r(1))
  have 8: "map_of (odicts s' ! length (odicts s)) = map_of (rev lbs @ odicts s ! base_blocks)"
    unfolding n by (rule foldl_setitem_map_of)
  have k: "map fst (child_blocks self) = map fst ?new"
    by (simp add: 4 store_items_def n fst_comp_named)
  have 9: "map fst (child_blocks self) =
           rev (remdups (rev (map fst (odicts s ! base_blocks) @ map fst lbs)))"
    unfolding k by (rule foldl_setitem_order [OF d])
  from foldl_setitem_prefix [of "odicts s ! base_blocks" lbs] obtain new where
    "map fst (child_blocks self) = map fst (odicts s ! base_blocks) @ new"
    unfolding k by blast
  then have 10: "take (length (odicts s ! base_blocks)) (map fst (child_blocks self))
      = map fst (odicts s ! base_blocks)"
    by simp
  have 11: "distinct (map fst (child_blocks self))"
    unfolding k by (rule foldl_setitem_keys_distinct [OF d])
  from 1 2 3 4 5 6 7 8 9 10 11 show ?thesis by blast
qed

text \<open>
  The theorem at the class that declares a title and a body. Constructed with a new body
  and two definitions of a summary: the base set is as it was, the body keeps the second
  place with the new definition, and the summary has the definition given last.
  Constructed with one object under two names: both names hold that object, which bears
  the name given last.
\<close>

theorem init_supplements_copy_witness:
  "(0::nat) < length (odicts example_store) \<and>
   distinct (map fst (odicts example_store ! 0)) \<and>
   odicts (fst (init example_set_name (\<lambda>kwargs. PlainText ''Article'') example_store 0
          (Some [(''body'', 2), (''summary'', 3), (''summary'', 4)]) [(''label'', ''Article'')])) ! 0
     = [(''title'', 0), (''body'', 1)] \<and>
   map (\<lambda>(name, blk). (name, block_name blk, meta_default blk))
     (store_items (fst (init example_set_name (\<lambda>kwargs. PlainText ''Article'') example_store 0
          (Some [(''body'', 2), (''summary'', 3), (''summary'', 4)]) [(''label'', ''Article'')])) 0)
     = [(''title'', ''title'', Some ''Untitled''), (''body'', ''body'', Some ''Lorem'')] \<and>
   map (\<lambda>(name, blk). (name, block_name blk, meta_default blk))
     (child_blocks (snd (init example_set_name (\<lambda>kwargs. PlainText ''Article'') example_store 0
          (Some [(''body'', 2), (''summary'', 3), (''summary'', 4)]) [(''label'', ''Article'')])))
     = [(''title'', ''title'', Some ''Untitled''), (''body'', ''body'', Some ''Ipsum''),
        (''summary'', ''summary'', Some ''T'')] \<and>
   map (\<lambda>(name, blk). (name, block_name blk, meta_default blk))
     (child_blocks (snd (init example_set_name (\<lambda>kwargs. PlainText ''Article'') example_store 0
          (Some [(''a'', 2), (''b'', 2)]) [(''label'', ''Article'')])))
     = [(''title'', ''title'', Some ''Untitled''), (''body'', ''body'', Some ''Lorem''),
        (''a'', ''b'', Some ''Ipsum''), (''b'', ''b'', Some ''Ipsum'')]"
  using init_supplements_copy
    [of 0 example_store example_set_name "\<lambda>kwargs. PlainText ''Article''"
      "Some [(''body'', 2), (''summary'', 3), (''summary'', 4)]" "[(''label'', ''Article'')]"
      "fst (init example_set_name (\<lambda>kwargs. PlainText ''Article'') example_store 0
          (Some [(''body'', 2), (''summary'', 3), (''summary'', 4)]) [(''label'', ''Article'')])"
      "snd (init example_set_name (\<lambda>kwargs. PlainText ''Article'') example_store 0
          (Some [(''body'', 2), (''summary'', 3), (''summary'', 4)]) [(''label'', ''Article'')])"]
    init_supplements_copy
    [of 0 example_store example_set_name "\<lambda>kwargs. PlainText ''Article''"
      "Some [(''a'', 2), (''b'', 2)]" "[(''label'', ''Article'')]"
      "fst (init example_set_name (\<lambda>kwargs. PlainText ''Article'') example_store 0
          (Some [(''a'', 2), (''b'', 2)]) [(''label'', ''Article'')])"
      "snd (init example_set_name (\<lambda>kwargs. PlainText ''Article'') example_store 0
          (Some [(''a'', 2), (''b'', 2)]) [(''label'', ''Article'')])"]
  by (simp add: init_def store_copy_def store_setitem_def store_set_name_def store_items_def
      odict_setitem_def Let_def example_store_def example_set_name_def example_char_block_def
      numeral_2_eq_2 numeral_3_eq_3 eval_nat_numeral)

text \<open>
  Claim C7 as stated leaves the base set as it was. Constructed with the title's own
  object as the supplemental field \<^verbatim>\<open>headline\<close>, the base set still holds that object
  under \<^verbatim>\<open>title\<close>, and the object now bears the name \<^verbatim>\<open>headline\<close>: the field definition
  the base set shows under \<^verbatim>\<open>title\<close> has changed.
\<close>

theorem init_shared_object_counterexample:
  "map (\<lambda>(name, blk). (name, block_name blk)) (store_items example_store 0)
     = [(''title'', ''title''), (''body'', ''body'')] \<and>
   odicts (fst (init example_set_name (\<lambda>kwargs. PlainText ''Article'') example_store 0
          (Some [(''headline'', 0)]) [(''label'', ''Article'')])) ! 0
     = odicts example_store ! 0 \<and>
   map (\<lambda>(name, blk). (name, block_name blk))
     (store_items (fst (init example_set_name (\<lambda>kwargs. PlainText ''Article'') example_store 0
          (Some [(''headline'', 0)]) [(''label'', ''Article'')])) 0)
     = [(''title'', ''headline''), (''body'', ''body'')]"
  by (simp add: init_def store_copy_def store_setitem_def store_set_name_def store_items_def
      odict_setitem_def Let_def example_store_def example_set_name_def example_char_block_def)

text \<open>
  Claim C8. For a descriptor constructed over any base set (the fields a subclass
  declares) with any supplemental pairs, \<^verbatim>\<open>deconstruct\<close> returns the path of the plain
  \<^verbatim>\<open>StructBlock\<close>, which depends on nothing, the one-element argument list holding the
  ordered list of all (name, field definition) pairs, and the keyword arguments the
  constructor was called with. That list is the base set supplemented in order, each
  name with the field definition as the store shows it after construction, and its names
  are the declared names together with the supplemental ones.
\<close>

theorem deconstruct_as_plain_struct_block:
  fixes local_blocks :: "(string \<times> nat) list option"
    and s :: "('v, 'd, 'f) store"
  assumes b: "base_blocks < length (odicts s)"
    and i: "init set_name label_of s base_blocks local_blocks kwargs = (s', self)"
  shows "deconstruct self =
           (''wagtail.wagtailcore.blocks.StructBlock'', [child_blocks self], kwargs)
       \<and> child_blocks self =
           map (\<lambda>(name, r). (name, objects s' ! r))
             (foldl (\<lambda>d (name, r). odict_setitem d name r) (odicts s ! base_blocks)
                (case local_blocks of None \<Rightarrow> [] | Some l \<Rightarrow> l))
       \<and> fst ` set (child_blocks self) =
           fst ` set (odicts s ! base_blocks) \<union>
           fst ` set (case local_blocks of None \<Rightarrow> [] | Some l \<Rightarrow> l)"
proof -
  from i have s': "s' = fst (init set_name label_of s base_blocks local_blocks kwargs)"
    and self: "self = snd (init set_name label_of s base_blocks local_blocks kwargs)"
    by simp_all
  note r = init_result [OF b, of set_name label_of local_blocks kwargs, folded s' self]
  have c: "child_blocks self =
      map (\<lambda>(name, r). (name, objects s' ! r))
        (foldl (\<lambda>d (name, r). odict_setitem d name r) (odicts s ! base_blocks)
           (case local_blocks of None \<Rightarrow> [] | Some l \<Rightarrow> l))"
    by (simp add: r(3) store_items_def r(1))
  have 1: "deconstruct self =
      (''wagtail.wagtailcore.blocks.StructBlock'', [child_blocks self], kwargs)"
    by (simp add: deconstruct_def r(4))
  have 3: "fst ` set (child_blocks self) =
           fst ` set (odicts s ! base_blocks) \<union>
           fst ` set (case local_blocks of None \<Rightarrow> [] | Some l \<Rightarrow> l)"
    unfolding c
    using foldl_setitem_keys [of "odicts s ! base_blocks"
        "case local_blocks of None \<Rightarrow> [] | Some l \<Rightarrow> l"]
    by (simp add: image_image split_def)
  from 1 c 3 show ?thesis by blast
qed

text \<open>
  The theorem at the class that declares a title and a body, constructed with a summary
  and a label: the path is that of \<^verbatim>\<open>StructBlock\<close>, the list names the three fields and
  the keyword arguments are the label.
\<close>

theorem deconstruct_as_plain_struct_block_witness:
  "(0::nat) < length (odicts example_store) \<and>
   fst (deconstruct (snd (init example_set_name (\<lambda>kwargs. PlainText ''Article'')
          example_store 0 (Some [(''summary'', 3)]) [(''label'', ''Article'')])))
     = ''wagtail.wagtailcore.blocks.StructBlock'' \<and>
   map (map (\<lambda>(name, blk). (name, block_name blk, meta_default blk)))
     (fst (snd (deconstruct (snd (init example_set_name (\<lambda>kwargs. PlainText ''Article'')
          example_store 0 (Some [(''summary'', 3)]) [(''label'', ''Article'')])))))
     = [[(''title'', ''title'', Some ''Untitled''), (''body'', ''body'', Some ''Lorem''),
         (''summary'', ''summary'', Some ''S'')]] \<and>
   snd (snd (deconstruct (snd (init example_set_name (\<lambda>kwargs. PlainText ''Article'')
          example_store 0 (Some [(''summary'', 3)]) [(''label'', ''Article'')]))))
     = [(''label'', ''Article'')]"
  using deconstruct_as_plain_struct_block
    [of 0 example_store example_set_name "\<lambda>kwargs. PlainText ''Article''"
      "Some [(''summary'', 3)]" "[(''label'', ''Article'')]"
      "fst (init example_set_name (\<lambda>kwargs. PlainText ''Article'')
          example_store 0 (Some [(''summary'', 3)]) [(''label'', ''Article'')])"
      "snd (init example_set_name (\<lambda>kwargs. PlainText ''Article'')
          example_store 0 (Some [(''summary'', 3)]) [(''label'', ''Article'')])"]
  by (simp add: init_def store_copy_def store_setitem_def store_set_name_def store_items_def
      odict_setitem_def Let_def example_store_def example_set_name_def example_char_block_def
      eval_nat_numeral)

end
